theory Spec2Isabelle
  imports Complex_Main "HOL-Library.Word" "HOL-Library.Sublist"
begin

section \<open>Go values used by package transcode\<close>

text \<open>
  A Go \<^verbatim>\<open>string\<close> is a sequence of bytes: it is modelled as \<^typ>\<open>string\<close>, a list
  of 8-bit \<^typ>\<open>char\<close>s. A run-time panic and an \<^verbatim>\<open>error\<close> value are kept apart:
  a panic aborts the call (\<open>Inl\<close> of a \<open>panic + 'a\<close> result), an error is returned.
\<close>

datatype panic =
    IndexOutOfRange
  | InterfaceConversion

datatype error =
    UnclosedQuote string
  | ExternalError string

text \<open>
  The conversion \<^verbatim>\<open>string(c)\<close> of a byte \<^verbatim>\<open>c\<close>: Go converts an integer to the UTF-8
  encoding of the code point with that number, so a byte below \<open>0x80\<close> becomes the
  one-byte string holding it and a byte from \<open>0x80\<close> on becomes two bytes.
\<close>

definition string_of_byte :: "char \<Rightarrow> string" where
  "string_of_byte c =
     (let n = (of_char c :: nat)
      in if n < 128 then [c]
         else [char_of (192 + n div 64), char_of (128 + n mod 64)])"

section \<open>The command line tokenizer\<close>

datatype pstate = st_start | st_arg | st_quotes

record tokenizer =
  args :: "string list"
  state :: pstate
  current :: string
  quote :: string
  escapeNext :: bool

text \<open>The variables of \<^verbatim>\<open>parseCommandLine\<close> before the loop.\<close>

definition tokenizer_init :: tokenizer where
  "tokenizer_init =
     \<lparr>args = [], state = st_start, current = [], quote = [CHR 0x22], escapeNext = True\<rparr>"

text \<open>One iteration of the loop body on the byte \<open>c\<close>; the branches are in source order.\<close>

definition tokenizer_step :: "char \<Rightarrow> tokenizer \<Rightarrow> tokenizer" where
  "tokenizer_step c t =
     (if state t = st_quotes then
        (if string_of_byte c \<noteq> quote t
         then t\<lparr>current := current t @ string_of_byte c\<rparr>
         else t\<lparr>args := args t @ [current t], current := [], state := st_start\<rparr>)
      else if escapeNext t then
        t\<lparr>current := current t @ string_of_byte c, escapeNext := False\<rparr>
      else if c = CHR 0x5C then
        t\<lparr>escapeNext := True\<rparr>
      else if c = CHR 0x22 \<or> c = CHR 0x27 then
        t\<lparr>state := st_quotes, quote := string_of_byte c\<rparr>
      else if state t = st_arg then
        (if c = CHR 0x20 \<or> c = CHR 0x09
         then t\<lparr>args := args t @ [current t], current := [], state := st_start\<rparr>
         else t\<lparr>current := current t @ string_of_byte c\<rparr>)
      else if c \<noteq> CHR 0x20 \<and> c \<noteq> CHR 0x09 then
        t\<lparr>state := st_arg, current := current t @ string_of_byte c\<rparr>
      else t)"

text \<open>The loop over the bytes of the command, from the given variables.\<close>

definition tokenizer_run :: "string \<Rightarrow> tokenizer \<Rightarrow> tokenizer" where
  "tokenizer_run command t = fold tokenizer_step command t"

text \<open>The code after the loop.\<close>

definition tokenizer_finish :: "string \<Rightarrow> tokenizer \<Rightarrow> error + string list" where
  "tokenizer_finish command t =
     (if state t = st_quotes then Inl (UnclosedQuote command)
      else if current t \<noteq> [] then Inr (args t @ [current t])
      else Inr (args t))"

definition parseCommandLine :: "string \<Rightarrow> error + string list" where
  "parseCommandLine command =
     tokenizer_finish command (tokenizer_run command tokenizer_init)"

section \<open>Probed stream descriptors\<close>

text \<open>
  A probed stream is a \<^verbatim>\<open>map[string]interface{}\<close> decoded from JSON. The values an
  \<^verbatim>\<open>interface{}\<close> holds there are nil, booleans, \<^verbatim>\<open>float64\<close> numbers, strings, arrays
  and objects. A \<^verbatim>\<open>float64\<close> is kept as the real number it denotes, or as one of the
  three values that denote none.
\<close>

datatype float64 = Finite real | PosInf | NegInf | NaN

datatype iface =
    INil
  | IBool bool
  | IFloat64 float64
  | IString string
  | IArray "iface list"
  | IObject "(string \<times> iface) list"

type_synonym stream = "string \<rightharpoonup> iface"

text \<open>Indexing a Go map: a missing key gives the zero value, the nil interface.\<close>

definition map_index :: "stream \<Rightarrow> string \<Rightarrow> iface" where
  "map_index s k = (case s k of None \<Rightarrow> INil | Some v \<Rightarrow> v)"

text \<open>
  The conversion \<^verbatim>\<open>int(f)\<close> of a \<^verbatim>\<open>float64\<close> on a platform with 64-bit \<^verbatim>\<open>int\<close>: the
  fraction is discarded (truncation towards zero). Where the result does not fit, the
  conversion still succeeds and its value depends on the implementation: the
  parameter \<open>indef\<close> gives it.
\<close>

definition truncate_real :: "real \<Rightarrow> int" where
  "truncate_real r = (if 0 \<le> r then \<lfloor>r\<rfloor> else \<lceil>r\<rceil>)"

definition float64_to_int :: "(float64 \<Rightarrow> int) \<Rightarrow> float64 \<Rightarrow> int" where
  "float64_to_int indef f =
     (case f of
        Finite r \<Rightarrow>
          (let t = truncate_real r
           in if - (2 ^ 63) \<le> t \<and> t < 2 ^ 63 then t else indef f)
      | _ \<Rightarrow> indef f)"

text \<open>\<^verbatim>\<open>strconv.Itoa\<close> and \<^verbatim>\<open>strconv.FormatInt(_, 10)\<close>: the decimal digits, after a minus
  sign for a negative number.\<close>

definition digit_char :: "nat \<Rightarrow> char" where
  "digit_char d = ''0123456789'' ! d"

fun digits :: "nat \<Rightarrow> string" where
  "digits n = (if n < 10 then [digit_char n] else digits (n div 10) @ [digit_char (n mod 10)])"

declare digits.simps [simp del]

definition Itoa :: "int \<Rightarrow> string" where
  "Itoa i = (if i < 0 then CHR ''-'' # digits (nat (- i)) else digits (nat i))"

section \<open>The codec policy selector\<close>

text \<open>The \<^verbatim>\<open>switch\<close> of \<^verbatim>\<open>streamArgs\<close>: the value \<^verbatim>\<open>ret\<close> holds at the \<^verbatim>\<open>return\<close>, before the
  deferred function runs. An interface value equals a string constant when it holds
  that string.\<close>

definition streamArgs_switch :: "stream \<Rightarrow> string list" where
  "streamArgs_switch s =
     (if map_index s ''codec_type'' = IString ''video'' then
        [''-target'', ''pal-dvd'']
      else if map_index s ''codec_type'' = IString ''audio'' then
        (if map_index s ''codec_name'' = IString ''dca''
         then [''-acodec'', ''ac3'', ''-ab'', ''224k'', ''-ac'', ''2'']
         else [''-acodec'', ''copy''])
      else if map_index s ''codec_type'' = IString ''subtitle'' then
        [''-scodec'', ''copy'']
      else [])"

text \<open>The deferred function: it appends the \<^verbatim>\<open>-map\<close> pair to a non-empty \<^verbatim>\<open>ret\<close>. The type
  assertion \<^verbatim>\<open>s["index"].(float64)\<close> has no second result, so it panics on any value
  that is not a \<^verbatim>\<open>float64\<close>.\<close>

definition streamArgs_deferred ::
  "(float64 \<Rightarrow> int) \<Rightarrow> stream \<Rightarrow> string list \<Rightarrow> panic + string list" where
  "streamArgs_deferred indef s ret =
     (if length ret \<noteq> 0 then
        (case map_index s ''index'' of
           IFloat64 f \<Rightarrow> Inr (ret @ [''-map'', ''0:'' @ Itoa (float64_to_int indef f)])
         | _ \<Rightarrow> Inl InterfaceConversion)
      else Inr ret)"

definition streamArgs :: "(float64 \<Rightarrow> int) \<Rightarrow> stream \<Rightarrow> panic + string list" where
  "streamArgs indef s = streamArgs_deferred indef s (streamArgs_switch s)"

section \<open>The host: what the package calls and does not define\<close>

text \<open>
  \<^verbatim>\<open>exec.Command(args[0], args[1:]...)\<close> with \<^verbatim>\<open>cmd.Stderr = stderr\<close>: the command a
  process is started from.
\<close>

record 'w Cmd =
  Path :: string
  Args :: "string list"
  Stderr :: 'w

text \<open>
  The functions of other packages, as parameters: the CPU count, the duration
  formatter of package \<^verbatim>\<open>misc\<close> (a \<^verbatim>\<open>time.Duration\<close> is a signed 64-bit count of
  nanoseconds), the probe, the two calls on a command that can fail, and the
  implementation-dependent part of \<^verbatim>\<open>int(f)\<close>. \<^verbatim>\<open>cmd.StdoutPipe()\<close> of package
  \<^verbatim>\<open>os/exec\<close> returns either a nil reader with an error (\<open>Inl\<close>) or the read end of a new
  pipe with a nil error (\<open>Inr\<close>).
\<close>

record ('h, 'w) host =
  NumCPU :: int
  FormatDurationSexagesimal :: "64 word \<Rightarrow> string"
  ffprobe_Run :: "string \<Rightarrow> error + stream list"
  StdoutPipe :: "'w Cmd \<Rightarrow> error + 'h"
  Start :: "'w Cmd \<Rightarrow> error option"
  int_indef :: "float64 \<Rightarrow> int"

section \<open>The process launcher\<close>

text \<open>
  What a call of the launcher or of a builder gives back: the two results \<^verbatim>\<open>r\<close> and
  \<^verbatim>\<open>err\<close>, and the background task it has started, if any, with the argument vector
  the task logs on failure.
\<close>

text \<open>
  The \<^verbatim>\<open>io.ReadCloser\<close> a pipe creation returns is a file: the handle, and whether the
  file has been closed. A read from a closed file fails.
\<close>

record 'h ReadCloser =
  handle :: 'h
  is_closed :: bool

record 'h launched =
  reader :: "'h ReadCloser option"
  err :: "error option"
  reaper :: "string list option"

text \<open>
  \<^verbatim>\<open>cmd.Start()\<close> of package \<^verbatim>\<open>os/exec\<close>, on a command whose standard output is the pipe
  with the read end \<open>r\<close>: when the start fails, it closes the pipes made for the command
  before it returns the error, so the read end the caller holds is then a closed file.
\<close>

definition cmd_Start ::
  "('h, 'w) host \<Rightarrow> 'w Cmd \<Rightarrow> 'h ReadCloser \<Rightarrow> error option \<times> 'h ReadCloser" where
  "cmd_Start h cmd r =
     (case Start h cmd of
        Some e \<Rightarrow> (Some e, r\<lparr>is_closed := True\<rparr>)
      | None \<Rightarrow> (None, r))"

text \<open>\<^verbatim>\<open>transcodePipe\<close>. Indexing \<^verbatim>\<open>args[0]\<close> panics on an empty slice. The results are
  named, so each bare \<^verbatim>\<open>return\<close> gives back the \<^verbatim>\<open>r\<close> assigned by \<^verbatim>\<open>cmd.StdoutPipe()\<close>:
  nil when the pipe creation failed, the read end of the pipe when the start failed.\<close>

definition transcodePipe ::
  "('h, 'w) host \<Rightarrow> string list \<Rightarrow> 'w \<Rightarrow> panic + 'h launched" where
  "transcodePipe h argv stderr =
     (case argv of
        [] \<Rightarrow> Inl IndexOutOfRange
      | a0 # rest \<Rightarrow>
          (let cmd = \<lparr>Path = a0, Args = a0 # rest, Stderr = stderr\<rparr>
           in case StdoutPipe h cmd of
                Inl e \<Rightarrow> Inr \<lparr>reader = None, err = Some e, reaper = None\<rparr>
              | Inr p \<Rightarrow>
                  (case cmd_Start h cmd \<lparr>handle = p, is_closed = False\<rparr> of
                     (Some e', r) \<Rightarrow> Inr \<lparr>reader = Some r, err = Some e', reaper = None\<rparr>
                   | (None, r) \<Rightarrow> Inr \<lparr>reader = Some r, err = None, reaper = Some argv\<rparr>)))"

section \<open>The profile builders\<close>

text \<open>
  Each builder is split in two: the argument vector it assembles
  (\<open>_argv\<close>), and the call that hands the vector to the launcher. The vectors are
  built as the code builds them, by appending to \<^verbatim>\<open>args\<close>.
\<close>

text \<open>The loop \<^verbatim>\<open>for _, s := range info.Streams\<close> of \<^verbatim>\<open>Transcode\<close>; a panic of \<^verbatim>\<open>streamArgs\<close>
  ends it.\<close>

fun append_streamArgs ::
  "(float64 \<Rightarrow> int) \<Rightarrow> string list \<Rightarrow> stream list \<Rightarrow> panic + string list" where
  "append_streamArgs indef argv [] = Inr argv"
| "append_streamArgs indef argv (s # ss) =
     (case streamArgs indef s of
        Inl p \<Rightarrow> Inl p
      | Inr d \<Rightarrow> append_streamArgs indef (argv @ d) ss)"

definition Transcode_argv ::
  "('h, 'w) host \<Rightarrow> string \<Rightarrow> 64 word \<Rightarrow> 64 word \<Rightarrow> stream list \<Rightarrow> panic + string list" where
  "Transcode_argv h path start len streams =
     (let argv = [''ffmpeg'',
                  ''-threads'', Itoa (NumCPU h),
                  ''-async'', ''1'',
                  ''-ss'', FormatDurationSexagesimal h start];
          argv = (if 0 \<le> sint len
                  then argv @ [''-t'', FormatDurationSexagesimal h len] else argv);
          argv = argv @ [''-i'', path]
      in case append_streamArgs (int_indef h) argv streams of
           Inl p \<Rightarrow> Inl p
         | Inr argv \<Rightarrow> Inr (argv @ [''-f'', ''mpegts'', ''pipe:'']))"

definition Transcode ::
  "('h, 'w) host \<Rightarrow> string \<Rightarrow> 64 word \<Rightarrow> 64 word \<Rightarrow> 'w \<Rightarrow> panic + 'h launched" where
  "Transcode h path start len stderr =
     (case ffprobe_Run h path of
        Inl e \<Rightarrow> Inr \<lparr>reader = None, err = Some e, reaper = None\<rparr>
      | Inr streams \<Rightarrow>
          (case Transcode_argv h path start len streams of
             Inl p \<Rightarrow> Inl p
           | Inr argv \<Rightarrow> transcodePipe h argv stderr))"

definition VP8Transcode_argv ::
  "('h, 'w) host \<Rightarrow> string \<Rightarrow> 64 word \<Rightarrow> 64 word \<Rightarrow> string list" where
  "VP8Transcode_argv h path start len =
     (let argv = [''avconv'',
                  ''-threads'', Itoa (NumCPU h),
                  ''-async'', ''1'',
                  ''-ss'', FormatDurationSexagesimal h start];
          argv = (if 0 < sint len
                  then argv @ [''-t'', FormatDurationSexagesimal h len] else argv)
      in argv @ [''-i'', path, ''-f'', ''webm'', ''pipe:''])"

definition VP8Transcode ::
  "('h, 'w) host \<Rightarrow> string \<Rightarrow> 64 word \<Rightarrow> 64 word \<Rightarrow> 'w \<Rightarrow> panic + 'h launched" where
  "VP8Transcode h path start len stderr =
     transcodePipe h (VP8Transcode_argv h path start len) stderr"

definition ChromecastTranscode_argv ::
  "('h, 'w) host \<Rightarrow> string \<Rightarrow> 64 word \<Rightarrow> 64 word \<Rightarrow> string list" where
  "ChromecastTranscode_argv h path start len =
     (let argv = [''ffmpeg'',
                  ''-ss'', FormatDurationSexagesimal h start,
                  ''-i'', path,
                  ''-c:v'', ''libx264'', ''-preset'', ''ultrafast'',
                  ''-profile:v'', ''high'', ''-level'', ''5.0'',
                  ''-movflags'', ''+faststart+frag_keyframe+empty_moov''];
          argv = (if 0 < sint len
                  then argv @ [''-t'', FormatDurationSexagesimal h len] else argv)
      in argv @ [''-f'', ''mp4'', ''pipe:''])"

definition ChromecastTranscode ::
  "('h, 'w) host \<Rightarrow> string \<Rightarrow> 64 word \<Rightarrow> 64 word \<Rightarrow> 'w \<Rightarrow> panic + 'h launched" where
  "ChromecastTranscode h path start len stderr =
     transcodePipe h (ChromecastTranscode_argv h path start len) stderr"

definition WebTranscode_argv ::
  "('h, 'w) host \<Rightarrow> string \<Rightarrow> 64 word \<Rightarrow> 64 word \<Rightarrow> string list" where
  "WebTranscode_argv h path start len =
     (let argv = [''ffmpeg'',
                  ''-ss'', FormatDurationSexagesimal h start,
                  ''-i'', path,
                  ''-pix_fmt'', ''yuv420p'',
                  ''-c:v'', ''libx264'', ''-crf'', ''25'',
                  ''-c:a'', ''mp3'', ''-ab'', ''128k'', ''-ar'', ''44100'',
                  ''-preset'', ''ultrafast'',
                  ''-movflags'', ''+faststart+frag_keyframe+empty_moov''];
          argv = (if 0 < sint len
                  then argv @ [''-t'', FormatDurationSexagesimal h len] else argv)
      in argv @ [''-f'', ''mp4'', ''pipe:''])"

definition WebTranscode ::
  "('h, 'w) host \<Rightarrow> string \<Rightarrow> 64 word \<Rightarrow> 64 word \<Rightarrow> 'w \<Rightarrow> panic + 'h launched" where
  "WebTranscode h path start len stderr =
     transcodePipe h (WebTranscode_argv h path start len) stderr"

section \<open>The ad-hoc path\<close>

definition Exec ::
  "('h, 'w) host \<Rightarrow> string \<Rightarrow> 64 word \<Rightarrow> 64 word \<Rightarrow> 'w \<Rightarrow> panic + 'h launched" where
  "Exec h cmds start len stderr =
     (case parseCommandLine cmds of
        Inl aerr \<Rightarrow> Inr \<lparr>reader = None, err = Some aerr, reaper = None\<rparr>
      | Inr cmda \<Rightarrow> transcodePipe h cmda stderr)"

section \<open>Notions the properties are stated with\<close>

text \<open>The position of the first occurrence of a token in a vector (its length when the
  token does not occur).\<close>

fun index_of :: "'a \<Rightarrow> 'a list \<Rightarrow> nat" where
  "index_of x [] = 0"
| "index_of x (y # ys) = (if x = y then 0 else Suc (index_of x ys))"


text \<open>The first token of the tokenizer, emitted already or still pending, begins with
  the bytes \<open>p\<close>.\<close>

definition first_token_from :: "string \<Rightarrow> tokenizer \<Rightarrow> bool" where
  "first_token_from p t \<longleftrightarrow>
     (if args t = [] then prefix p (current t) else prefix p (hd (args t)))"

text \<open>A result \<^verbatim>\<open>r\<close> of the launcher is a readable stream: it is not nil and its file is
  not closed.\<close>

definition readable :: "'h ReadCloser option \<Rightarrow> bool" where
  "readable r = (case r of None \<Rightarrow> False | Some f \<Rightarrow> \<not> is_closed f)"

text \<open>
  Hosts to run the definitions on. The first starts every command; its duration
  formatter prints the count of nanoseconds in decimal, which stands for the
  formatter of package \<^verbatim>\<open>misc\<close>. On the second the pipe is created and the start
  fails, as for a binary that does not exist. On the third the pipe creation fails.
\<close>

definition host_ok :: "(nat, unit) host" where
  "host_ok =
     \<lparr>NumCPU = 4,
      FormatDurationSexagesimal = (\<lambda>d. Itoa (sint d)),
      ffprobe_Run = (\<lambda>p. Inr [[''index'' \<mapsto> IFloat64 (Finite 0), ''codec_type'' \<mapsto> IString ''video'']]),
      StdoutPipe = (\<lambda>c. Inr 3),
      Start = (\<lambda>c. None),
      int_indef = (\<lambda>f. - (2 ^ 63))\<rparr>"

definition host_start_fails :: "(nat, unit) host" where
  "host_start_fails = host_ok\<lparr>Start := (\<lambda>c. Some (ExternalError ''executable file not found''))\<rparr>"

definition host_pipe_fails :: "(nat, unit) host" where
  "host_pipe_fails = host_ok\<lparr>StdoutPipe := (\<lambda>c. Inl (ExternalError ''too many open files''))\<rparr>"

section \<open>The tokenizer on the example of the specification\<close>

lemmas tokenizer_defs =
  parseCommandLine_def tokenizer_run_def tokenizer_finish_def tokenizer_init_def
  tokenizer_step_def string_of_byte_def

text \<open>
  Claim C4, as the code has it: tokenizing \<^verbatim>\<open>foo "bar baz" qux\<close> returns the three tokens
  \<^verbatim>\<open>foo\<close>, \<^verbatim>\<open>bar baz\<close> and \<^verbatim>\<open>qux\<close>. The first byte \<^verbatim>\<open>f\<close> takes the escape branch, which
  appends it to the pending token: it is kept, and it is the first byte of the first
  token.
\<close>

theorem parseCommandLine_foo_bar_baz_qux:
  \<open>parseCommandLine ''foo "bar baz" qux'' = Inr [''foo'', ''bar baz'', ''qux'']\<close>
  by (simp add: tokenizer_defs)

text \<open>
  Claim C4, as the specification words it, fails: the token list is not
  \<^verbatim>\<open>oo\<close>, \<^verbatim>\<open>bar baz\<close>, \<^verbatim>\<open>qux\<close>; no byte is swallowed.
\<close>

theorem parseCommandLine_foo_not_swallowed:
  \<open>parseCommandLine ''foo "bar baz" qux'' \<noteq> Inr [''oo'', ''bar baz'', ''qux'']\<close>
  by (simp add: tokenizer_defs)

section \<open>The first byte of a command\<close>

lemma string_of_byte_not_Nil: "string_of_byte c \<noteq> []"
  by (simp add: string_of_byte_def Let_def)

lemma tokenizer_step_init:
  "tokenizer_step c tokenizer_init =
     tokenizer_init\<lparr>current := string_of_byte c, escapeNext := False\<rparr>"
  by (simp add: tokenizer_step_def tokenizer_init_def)

lemma parseCommandLine_Cons:
  "parseCommandLine (c # rest) =
     tokenizer_finish (c # rest)
       (tokenizer_run rest (tokenizer_init\<lparr>current := string_of_byte c, escapeNext := False\<rparr>))"
  by (simp add: parseCommandLine_def tokenizer_run_def tokenizer_step_init)

lemma first_token_from_step:
  assumes "first_token_from p t"
  shows "first_token_from p (tokenizer_step c t)"
proof (cases "args t = []")
  case True
  with assms have "prefix p (current t)" by (simp add: first_token_from_def)
  with True show ?thesis
    by (simp add: first_token_from_def tokenizer_step_def)
next
  case False
  with assms have "prefix p (hd (args t))" by (simp add: first_token_from_def)
  with False show ?thesis
    by (simp add: first_token_from_def tokenizer_step_def)
qed

lemma first_token_from_run:
  "first_token_from p t \<Longrightarrow> first_token_from p (tokenizer_run cs t)"
  unfolding tokenizer_run_def
  by (induction cs arbitrary: t) (simp_all add: first_token_from_step)

lemma first_token_from_finish:
  assumes "first_token_from p t" and "p \<noteq> []" and "tokenizer_finish command t = Inr toks"
  shows "toks \<noteq> [] \<and> prefix p (hd toks)"
proof (cases "args t = []")
  case True
  with assms(1) have p: "prefix p (current t)" by (simp add: first_token_from_def)
  with assms(2) have "current t \<noteq> []" by auto
  with assms(3) True have "toks = [current t]"
    by (simp add: tokenizer_finish_def split: if_splits)
  with p show ?thesis by simp
next
  case False
  with assms(1) have p: "prefix p (hd (args t))" by (simp add: first_token_from_def)
  from assms(3) have "toks = args t @ [current t] \<or> toks = args t"
    by (auto simp: tokenizer_finish_def split: if_splits)
  with False p show ?thesis by auto
qed


lemma string_of_byte_special:
  "c = CHR 0x22 \<or> c = CHR 0x27 \<or> c = CHR 0x5C \<or> c = CHR 0x20 \<or> c = CHR 0x09
   \<Longrightarrow> string_of_byte c = [c]"
  by (elim disjE) (simp_all add: string_of_byte_def)

text \<open>
  Claim C3: on every non-empty command the first byte takes the escape branch. The first
  iteration appends \<^verbatim>\<open>string(c)\<close> to the pending token and does nothing else: the state
  stays \<^verbatim>\<open>start\<close>, no quoted section is opened and no token is emitted, whatever the
  byte is. For a double quote, a single quote, a backslash, a space and a tab the
  appended string is the byte itself. The rest of the command is tokenized from there,
  and when the tokenizer succeeds the first token it returns begins with that byte.
\<close>

theorem parseCommandLine_first_byte_escaped:
  "tokenizer_step c tokenizer_init =
     \<lparr>args = [], state = st_start, current = string_of_byte c, quote = [CHR 0x22],
      escapeNext = False\<rparr>
   \<and> parseCommandLine (c # rest) =
       tokenizer_finish (c # rest)
         (tokenizer_run rest
            \<lparr>args = [], state = st_start, current = string_of_byte c, quote = [CHR 0x22],
             escapeNext = False\<rparr>)
   \<and> (c = CHR 0x22 \<or> c = CHR 0x27 \<or> c = CHR 0x5C \<or> c = CHR 0x20 \<or> c = CHR 0x09
        \<longrightarrow> string_of_byte c = [c])
   \<and> (\<forall>toks. parseCommandLine (c # rest) = Inr toks \<longrightarrow>
         toks \<noteq> [] \<and> prefix (string_of_byte c) (hd toks))"
proof -
  let ?t1 = "\<lparr>args = [], state = st_start, current = string_of_byte c, quote = [CHR 0x22],
      escapeNext = False\<rparr>"
  have t1: "tokenizer_init\<lparr>current := string_of_byte c, escapeNext := False\<rparr> = ?t1"
    by (simp add: tokenizer_init_def)
  have step: "tokenizer_step c tokenizer_init = ?t1"
    by (simp add: tokenizer_step_init t1)
  have run: "parseCommandLine (c # rest) = tokenizer_finish (c # rest) (tokenizer_run rest ?t1)"
    by (simp add: parseCommandLine_Cons t1)
  have special: "c = CHR 0x22 \<or> c = CHR 0x27 \<or> c = CHR 0x5C \<or> c = CHR 0x20 \<or> c = CHR 0x09
        \<longrightarrow> string_of_byte c = [c]"
    using string_of_byte_special by blast
  have "first_token_from (string_of_byte c) ?t1"
    by (simp add: first_token_from_def)
  then have inv: "first_token_from (string_of_byte c) (tokenizer_run rest ?t1)"
    by (rule first_token_from_run)
  have toks: "\<forall>toks. parseCommandLine (c # rest) = Inr toks \<longrightarrow>
         toks \<noteq> [] \<and> prefix (string_of_byte c) (hd toks)"
  proof (intro allI impI)
    fix toks assume "parseCommandLine (c # rest) = Inr toks"
    then have "tokenizer_finish (c # rest) (tokenizer_run rest ?t1) = Inr toks"
      by (simp only: run)
    then show "toks \<noteq> [] \<and> prefix (string_of_byte c) (hd toks)"
      by (rule first_token_from_finish [OF inv string_of_byte_not_Nil])
  qed
  from step run special toks show ?thesis by (intro conjI)
qed

text \<open>The theorem at a leading double quote: it opens no quoted section and is the first
  byte of the first token.\<close>

theorem parseCommandLine_first_byte_escaped_witness:
  \<open>tokenizer_step (CHR 0x22) tokenizer_init =
     \<lparr>args = [], state = st_start, current = [CHR 0x22], quote = [CHR 0x22],
      escapeNext = False\<rparr>
   \<and> parseCommandLine (CHR 0x22 # ''a b'') = Inr [CHR 0x22 # ''a'', ''b'']
   \<and> prefix [CHR 0x22] (hd [CHR 0x22 # ''a'', ''b''])\<close>
proof -
  note inst = parseCommandLine_first_byte_escaped [of "CHR 0x22" "''a b''"]
  have a: "string_of_byte (CHR 0x22) = [CHR 0x22]"
    using inst by simp
  have b: "tokenizer_step (CHR 0x22) tokenizer_init =
     \<lparr>args = [], state = st_start, current = [CHR 0x22], quote = [CHR 0x22],
      escapeNext = False\<rparr>"
    using inst a by simp
  have c: "parseCommandLine (CHR 0x22 # ''a b'') = Inr [CHR 0x22 # ''a'', ''b'']"
    by (simp add: parseCommandLine_def tokenizer_run_def tokenizer_finish_def tokenizer_init_def
  tokenizer_step_def string_of_byte_def)
  have d: "prefix [CHR 0x22] (hd [CHR 0x22 # ''a'', ''b''])"
    using inst a c by simp
  show ?thesis using b c d by (intro conjI)
qed

section \<open>The ad-hoc path\<close>

text \<open>
  Claim C10: the empty command is tokenized without error into the empty token list,
  and \<^verbatim>\<open>Exec\<close> hands that list to the launcher, whose \<^verbatim>\<open>args[0]\<close> is then out of range:
  the call panics, whatever the host, the window and the sink are.
\<close>

theorem Exec_empty_command_panics:
  "parseCommandLine [] = Inr [] \<and> Exec h [] start len stderr = Inl IndexOutOfRange"
  by (simp add: Exec_def transcodePipe_def parseCommandLine_def tokenizer_run_def
      tokenizer_finish_def tokenizer_init_def)

text \<open>
  Claim C9: \<^verbatim>\<open>Exec\<close> does not read \<^verbatim>\<open>start\<close> and \<^verbatim>\<open>length\<close>. Two calls that differ in them
  only give the same result, and the vector handed to the launcher is the token list
  of the command, with nothing added to it.
\<close>

theorem Exec_ignores_start_and_length:
  "Exec h cmds start len stderr = Exec h cmds start' len' stderr
   \<and> Exec h cmds start len stderr =
       (case parseCommandLine cmds of
          Inl aerr \<Rightarrow> Inr \<lparr>reader = None, err = Some aerr, reaper = None\<rparr>
        | Inr cmda \<Rightarrow> transcodePipe h cmda stderr)"
  by (simp add: Exec_def)

section \<open>Quotes and backslashes\<close>







section \<open>The codec policy selector\<close>

lemmas streamArgs_defs = streamArgs_def streamArgs_switch_def streamArgs_deferred_def

lemma streamArgs_index_float64:
  assumes "map_index s ''index'' = IFloat64 f"
  shows "streamArgs indef s =
     Inr (if streamArgs_switch s = [] then []
          else streamArgs_switch s @ [''-map'', ''0:'' @ Itoa (float64_to_int indef f)])"
  using assms by (simp add: streamArgs_def streamArgs_deferred_def)

lemma streamArgs_switch_Nil_iff:
  "streamArgs_switch s = [] \<longleftrightarrow>
     map_index s ''codec_type'' \<notin> {IString ''video'', IString ''audio'', IString ''subtitle''}"
  by (simp add: streamArgs_switch_def)

lemma streamArgs_Inr_iff:
  "(\<exists>d. streamArgs indef s = Inr d) \<longleftrightarrow>
     (\<exists>f. map_index s ''index'' = IFloat64 f) \<or> streamArgs_switch s = []"
  by (cases "map_index s ''index''") (simp_all add: streamArgs_def streamArgs_deferred_def)

text \<open>
  Claim C1, as the code has it: the policy table. On a stream descriptor whose
  \<^verbatim>\<open>index\<close> holds a number,
  \<^verbatim>\<open>streamArgs\<close> returns \<^verbatim>\<open>-target pal-dvd\<close> for a video stream,
  \<^verbatim>\<open>-acodec ac3 -ab 224k -ac 2\<close> for an audio stream whose codec is \<^verbatim>\<open>dca\<close>,
  \<^verbatim>\<open>-acodec copy\<close> for any other audio stream and \<^verbatim>\<open>-scodec copy\<close> for a subtitle
  stream, each followed by \<^verbatim>\<open>-map\<close> and \<^verbatim>\<open>0:\<close> with the index in decimal. For any other
  codec type it returns the empty directive, whatever \<^verbatim>\<open>index\<close> holds. Every directive
  it returns that is not empty ends with that pair, and the empty one holds no
  \<^verbatim>\<open>-map\<close>. On a video, audio or subtitle stream whose \<^verbatim>\<open>index\<close> is missing or is not a
  number it returns no directive: it panics.
\<close>

theorem streamArgs_policy_table:
  "(map_index s ''index'' = IFloat64 f \<longrightarrow>
      streamArgs indef s = Inr
        (if map_index s ''codec_type'' = IString ''video'' then
           [''-target'', ''pal-dvd'', ''-map'', ''0:'' @ Itoa (float64_to_int indef f)]
         else if map_index s ''codec_type'' = IString ''audio'' then
           (if map_index s ''codec_name'' = IString ''dca''
            then [''-acodec'', ''ac3'', ''-ab'', ''224k'', ''-ac'', ''2'',
                  ''-map'', ''0:'' @ Itoa (float64_to_int indef f)]
            else [''-acodec'', ''copy'', ''-map'', ''0:'' @ Itoa (float64_to_int indef f)])
         else if map_index s ''codec_type'' = IString ''subtitle'' then
           [''-scodec'', ''copy'', ''-map'', ''0:'' @ Itoa (float64_to_int indef f)]
         else []))
   \<and> (map_index s ''codec_type'' \<notin> {IString ''video'', IString ''audio'', IString ''subtitle''} \<longrightarrow>
        streamArgs indef s = Inr [])
   \<and> (\<forall>d. streamArgs indef s = Inr d \<and> d \<noteq> [] \<longrightarrow>
        (\<exists>g. map_index s ''index'' = IFloat64 g \<and>
             drop (length d - 2) d = [''-map'', ''0:'' @ Itoa (float64_to_int indef g)]))
   \<and> (\<forall>d. streamArgs indef s = Inr d \<longrightarrow> (''-map'' \<in> set d \<longleftrightarrow> d \<noteq> []))
   \<and> ((\<forall>g. map_index s ''index'' \<noteq> IFloat64 g) \<and>
       map_index s ''codec_type'' \<in> {IString ''video'', IString ''audio'', IString ''subtitle''} \<longrightarrow>
        streamArgs indef s = Inl InterfaceConversion)"
proof (intro conjI)
  show "map_index s ''index'' = IFloat64 f \<longrightarrow>
      streamArgs indef s = Inr
        (if map_index s ''codec_type'' = IString ''video'' then
           [''-target'', ''pal-dvd'', ''-map'', ''0:'' @ Itoa (float64_to_int indef f)]
         else if map_index s ''codec_type'' = IString ''audio'' then
           (if map_index s ''codec_name'' = IString ''dca''
            then [''-acodec'', ''ac3'', ''-ab'', ''224k'', ''-ac'', ''2'',
                  ''-map'', ''0:'' @ Itoa (float64_to_int indef f)]
            else [''-acodec'', ''copy'', ''-map'', ''0:'' @ Itoa (float64_to_int indef f)])
         else if map_index s ''codec_type'' = IString ''subtitle'' then
           [''-scodec'', ''copy'', ''-map'', ''0:'' @ Itoa (float64_to_int indef f)]
         else [])"
    by (simp add: streamArgs_defs)
  show "map_index s ''codec_type'' \<notin> {IString ''video'', IString ''audio'', IString ''subtitle''} \<longrightarrow>
        streamArgs indef s = Inr []"
    by (simp add: streamArgs_defs)
  show "\<forall>d. streamArgs indef s = Inr d \<and> d \<noteq> [] \<longrightarrow>
        (\<exists>g. map_index s ''index'' = IFloat64 g \<and>
             drop (length d - 2) d = [''-map'', ''0:'' @ Itoa (float64_to_int indef g)])"
  proof (intro allI impI)
    fix d assume a: "streamArgs indef s = Inr d \<and> d \<noteq> []"
    then have ne: "streamArgs_switch s \<noteq> []"
      by (auto simp: streamArgs_def streamArgs_deferred_def)
    with a obtain g where g: "map_index s ''index'' = IFloat64 g"
      using streamArgs_Inr_iff [of indef s] by blast
    with a ne have "d = streamArgs_switch s @ [''-map'', ''0:'' @ Itoa (float64_to_int indef g)]"
      by (simp add: streamArgs_index_float64)
    then have "drop (length d - 2) d = [''-map'', ''0:'' @ Itoa (float64_to_int indef g)]"
      by simp
    with g show "\<exists>g. map_index s ''index'' = IFloat64 g \<and>
             drop (length d - 2) d = [''-map'', ''0:'' @ Itoa (float64_to_int indef g)]"
      by blast
  qed
  show "\<forall>d. streamArgs indef s = Inr d \<longrightarrow> (''-map'' \<in> set d \<longleftrightarrow> d \<noteq> [])"
  proof (intro allI impI)
    fix d assume a: "streamArgs indef s = Inr d"
    show "''-map'' \<in> set d \<longleftrightarrow> d \<noteq> []"
    proof (cases "streamArgs_switch s = []")
      case True
      with a show ?thesis by (simp add: streamArgs_def streamArgs_deferred_def)
    next
      case False
      with a obtain g where g: "map_index s ''index'' = IFloat64 g"
        using streamArgs_Inr_iff [of indef s] by blast
      with a False have "d = streamArgs_switch s @ [''-map'', ''0:'' @ Itoa (float64_to_int indef g)]"
        by (simp add: streamArgs_index_float64)
      then show ?thesis by simp
    qed
  qed
  show "(\<forall>g. map_index s ''index'' \<noteq> IFloat64 g) \<and>
       map_index s ''codec_type'' \<in> {IString ''video'', IString ''audio'', IString ''subtitle''} \<longrightarrow>
        streamArgs indef s = Inl InterfaceConversion"
  proof
    assume a: "(\<forall>g. map_index s ''index'' \<noteq> IFloat64 g) \<and>
       map_index s ''codec_type'' \<in> {IString ''video'', IString ''audio'', IString ''subtitle''}"
    then have "streamArgs_switch s \<noteq> []" by (simp add: streamArgs_switch_Nil_iff)
    with a have "\<not> (\<exists>d. streamArgs indef s = Inr d)"
      unfolding streamArgs_Inr_iff by blast
    then show "streamArgs indef s = Inl InterfaceConversion"
      by (cases "map_index s ''index''")
         (simp_all add: streamArgs_def streamArgs_deferred_def split: if_splits)
  qed
qed

text \<open>
  Claim C1, as the specification words it, fails: a \<^verbatim>\<open>dca\<close> audio stream whose map has no
  \<^verbatim>\<open>index\<close> gets no directive, the selector panics.
\<close>

theorem streamArgs_dca_without_index_panics:
  "streamArgs (\<lambda>f. 0) [''codec_type'' \<mapsto> IString ''audio'', ''codec_name'' \<mapsto> IString ''dca'']
     = Inl InterfaceConversion"
  by (simp add: streamArgs_defs map_index_def)

text \<open>The theorem on a \<^verbatim>\<open>dca\<close> audio stream with index 1, on a stream of type \<^verbatim>\<open>data\<close>, and
  on a subtitle stream whose index is a string.\<close>

theorem streamArgs_policy_table_witness:
  "map_index [''index'' \<mapsto> IFloat64 (Finite 1), ''codec_type'' \<mapsto> IString ''audio'',
              ''codec_name'' \<mapsto> IString ''dca''] ''index'' = IFloat64 (Finite 1)
   \<and> streamArgs (\<lambda>f. 0)
        [''index'' \<mapsto> IFloat64 (Finite 1), ''codec_type'' \<mapsto> IString ''audio'',
         ''codec_name'' \<mapsto> IString ''dca'']
      = Inr [''-acodec'', ''ac3'', ''-ab'', ''224k'', ''-ac'', ''2'', ''-map'', ''0:1'']
   \<and> streamArgs (\<lambda>f. 0) [''codec_type'' \<mapsto> IString ''data''] = Inr []
   \<and> drop (length [''-acodec'', ''ac3'', ''-ab'', ''224k'', ''-ac'', ''2'', ''-map'', ''0:1''] - 2)
        [''-acodec'', ''ac3'', ''-ab'', ''224k'', ''-ac'', ''2'', ''-map'', ''0:1'']
      = [''-map'', ''0:1'']
   \<and> ''-map'' \<in> set [''-acodec'', ''ac3'', ''-ab'', ''224k'', ''-ac'', ''2'', ''-map'', ''0:1'']
   \<and> streamArgs (\<lambda>f. 0) [''index'' \<mapsto> IString ''2'', ''codec_type'' \<mapsto> IString ''subtitle'']
       = Inl InterfaceConversion"
proof -
  let ?d = "[''-acodec'', ''ac3'', ''-ab'', ''224k'', ''-ac'', ''2'', ''-map'', ''0:1'']"
  let ?dca = "[''index'' \<mapsto> IFloat64 (Finite 1), ''codec_type'' \<mapsto> IString ''audio'',
              ''codec_name'' \<mapsto> IString ''dca'']"
  let ?data = "[''codec_type'' \<mapsto> IString ''data'']"
  have i: "Itoa (float64_to_int (\<lambda>f. 0) (Finite 1)) = ''1''"
    by (simp add: float64_to_int_def truncate_real_def Itoa_def digits.simps digit_char_def)
  have a: "map_index ?dca ''index'' = IFloat64 (Finite 1)"
    by (simp add: map_index_def)
  have ct: "map_index ?dca ''codec_type'' = IString ''audio''"
    by (simp add: map_index_def)
  have cn: "map_index ?dca ''codec_name'' = IString ''dca''"
    by (simp add: map_index_def)
  note row = streamArgs_policy_table [of ?dca "Finite 1" "\<lambda>f. 0", THEN conjunct1, rule_format, OF a]
  have b: "streamArgs (\<lambda>f. 0) ?dca
      = Inr [''-acodec'', ''ac3'', ''-ab'', ''224k'', ''-ac'', ''2'', ''-map'', ''0:1'']"
    unfolding row ct cn i by simp
  have other: "map_index ?data ''codec_type'' \<notin> {IString ''video'', IString ''audio'', IString ''subtitle''}"
    by (simp add: map_index_def)
  have d: "streamArgs (\<lambda>f. 0) ?data = Inr []"
    by (rule streamArgs_policy_table [of ?data "Finite 1" "\<lambda>f. 0", THEN conjunct2, THEN conjunct1, rule_format, OF other])
  have ne: "?d \<noteq> []" by simp
  from streamArgs_policy_table [of ?dca "Finite 1" "\<lambda>f. 0", THEN conjunct2, THEN conjunct2,
      THEN conjunct1, rule_format, OF conjI [OF b ne]]
  obtain g where g: "map_index ?dca ''index'' = IFloat64 g"
    and tail: "drop (length ?d - 2) ?d = [''-map'', ''0:'' @ Itoa (float64_to_int (\<lambda>f. 0) g)]"
    by blast
  from g a have "g = Finite 1" by simp
  with tail i have e: "drop (length ?d - 2) ?d = [''-map'', ''0:1'']" by simp
  have m: "''-map'' \<in> set ?d"
    using streamArgs_policy_table [of ?dca "Finite 1" "\<lambda>f. 0", THEN conjunct2, THEN conjunct2,
      THEN conjunct2, THEN conjunct1, rule_format, OF b] ne by blast
  let ?sub = "[''index'' \<mapsto> IString ''2'', ''codec_type'' \<mapsto> IString ''subtitle'']"
  have bad: "(\<forall>g. map_index ?sub ''index'' \<noteq> IFloat64 g) \<and>
       map_index ?sub ''codec_type'' \<in> {IString ''video'', IString ''audio'', IString ''subtitle''}"
    by (simp add: map_index_def)
  have pn: "streamArgs (\<lambda>f. 0) ?sub = Inl InterfaceConversion"
    by (rule streamArgs_policy_table [of ?sub "Finite 1" "\<lambda>f. 0", THEN conjunct2, THEN conjunct2,
      THEN conjunct2, THEN conjunct2, rule_format, OF bad])
  show ?thesis using a b d e m pn by (intro conjI)
qed

text \<open>
  Claim C6, as the code has it. \<^verbatim>\<open>streamArgs\<close> returns a directive exactly when
  \<^verbatim>\<open>index\<close> holds a \<^verbatim>\<open>float64\<close> or the codec type is none of \<^verbatim>\<open>video\<close>, \<^verbatim>\<open>audio\<close> and
  \<^verbatim>\<open>subtitle\<close>; on every other descriptor the type assertion in the deferred function
  panics. The result is a function of the descriptor, and of no more of it than the
  values of \<^verbatim>\<open>index\<close>, \<^verbatim>\<open>codec_type\<close> and \<^verbatim>\<open>codec_name\<close>.
\<close>

theorem streamArgs_total_iff:
  "((\<exists>d. streamArgs indef s = Inr d) \<longleftrightarrow>
      (\<exists>f. map_index s ''index'' = IFloat64 f) \<or>
      map_index s ''codec_type'' \<notin> {IString ''video'', IString ''audio'', IString ''subtitle''})
   \<and> ((\<forall>d. streamArgs indef s \<noteq> Inr d) \<longleftrightarrow> streamArgs indef s = Inl InterfaceConversion)
   \<and> (map_index s ''index'' = map_index s' ''index'' \<and>
       map_index s ''codec_type'' = map_index s' ''codec_type'' \<and>
       map_index s ''codec_name'' = map_index s' ''codec_name'' \<longrightarrow>
        streamArgs indef s = streamArgs indef s')"
proof (intro conjI)
  show "(\<exists>d. streamArgs indef s = Inr d) \<longleftrightarrow>
      (\<exists>f. map_index s ''index'' = IFloat64 f) \<or>
      map_index s ''codec_type'' \<notin> {IString ''video'', IString ''audio'', IString ''subtitle''}"
    unfolding streamArgs_Inr_iff streamArgs_switch_Nil_iff ..
  show "(\<forall>d. streamArgs indef s \<noteq> Inr d) \<longleftrightarrow> streamArgs indef s = Inl InterfaceConversion"
    by (cases "map_index s ''index''")
       (simp_all add: streamArgs_def streamArgs_deferred_def)
  show "map_index s ''index'' = map_index s' ''index'' \<and>
       map_index s ''codec_type'' = map_index s' ''codec_type'' \<and>
       map_index s ''codec_name'' = map_index s' ''codec_name'' \<longrightarrow>
        streamArgs indef s = streamArgs indef s'"
    by (simp add: streamArgs_defs)
qed

text \<open>
  Claim C6, as the specification words it, fails: on a video stream with no \<^verbatim>\<open>index\<close>
  key the type assertion panics.
\<close>

theorem streamArgs_missing_index_panics:
  "streamArgs (\<lambda>f. 0) [''codec_type'' \<mapsto> IString ''video''] = Inl InterfaceConversion"
  by (simp add: streamArgs_defs map_index_def)

text \<open>The theorem on a video stream with index 0, on an attachment without index, on a
  subtitle stream whose index is a string, and on two video streams that differ in a
  key the selector does not read.\<close>

theorem streamArgs_total_iff_witness:
  "(\<exists>d. streamArgs (\<lambda>f. 0) [''index'' \<mapsto> IFloat64 (Finite 0), ''codec_type'' \<mapsto> IString ''video''] = Inr d)
   \<and> (\<exists>d. streamArgs (\<lambda>f. 0) [''codec_type'' \<mapsto> IString ''attachment''] = Inr d)
   \<and> streamArgs (\<lambda>f. 0) [''index'' \<mapsto> IString ''0'', ''codec_type'' \<mapsto> IString ''subtitle'']
       = Inl InterfaceConversion
   \<and> streamArgs (\<lambda>f. 0) [''index'' \<mapsto> IFloat64 (Finite 0), ''codec_type'' \<mapsto> IString ''video'']
       = streamArgs (\<lambda>f. 0)
           [''index'' \<mapsto> IFloat64 (Finite 0), ''codec_type'' \<mapsto> IString ''video'',
            ''codec_name'' \<mapsto> INil, ''profile'' \<mapsto> IString ''High'']"
proof -
  let ?w = "[''index'' \<mapsto> IFloat64 (Finite 0), ''codec_type'' \<mapsto> IString ''video'',
            ''codec_name'' \<mapsto> INil, ''profile'' \<mapsto> IString ''High'']"
  let ?v = "[''index'' \<mapsto> IFloat64 (Finite 0), ''codec_type'' \<mapsto> IString ''video'']"
  let ?a = "[''codec_type'' \<mapsto> IString ''attachment'']"
  let ?s = "[''index'' \<mapsto> IString ''0'', ''codec_type'' \<mapsto> IString ''subtitle'']"
  have v: "(\<exists>f. map_index ?v ''index'' = IFloat64 f) \<or>
      map_index ?v ''codec_type'' \<notin> {IString ''video'', IString ''audio'', IString ''subtitle''}"
    by (simp add: map_index_def)
  have a: "(\<exists>f. map_index ?a ''index'' = IFloat64 f) \<or>
      map_index ?a ''codec_type'' \<notin> {IString ''video'', IString ''audio'', IString ''subtitle''}"
    by (simp add: map_index_def)
  have s: "\<not> ((\<exists>f. map_index ?s ''index'' = IFloat64 f) \<or>
      map_index ?s ''codec_type'' \<notin> {IString ''video'', IString ''audio'', IString ''subtitle''})"
    by (simp add: map_index_def)
  have 1: "\<exists>d. streamArgs (\<lambda>f. 0) ?v = Inr d"
    by (rule streamArgs_total_iff [of "\<lambda>f. 0" ?v, THEN conjunct1, THEN iffD2, OF v])
  have 2: "\<exists>d. streamArgs (\<lambda>f. 0) ?a = Inr d"
    by (rule streamArgs_total_iff [of "\<lambda>f. 0" ?a, THEN conjunct1, THEN iffD2, OF a])
  have "\<not> (\<exists>d. streamArgs (\<lambda>f. 0) ?s = Inr d)"
    using streamArgs_total_iff [of "\<lambda>f. 0" ?s, THEN conjunct1] s by blast
  then have "\<forall>d. streamArgs (\<lambda>f. 0) ?s \<noteq> Inr d" by blast
  then have 3: "streamArgs (\<lambda>f. 0) ?s = Inl InterfaceConversion"
    by (rule streamArgs_total_iff [of "\<lambda>f. 0" ?s, THEN conjunct2, THEN conjunct1, THEN iffD1])
  have same: "map_index ?v ''index'' = map_index ?w ''index'' \<and>
       map_index ?v ''codec_type'' = map_index ?w ''codec_type'' \<and>
       map_index ?v ''codec_name'' = map_index ?w ''codec_name''"
    by (simp add: map_index_def)
  have 4: "streamArgs (\<lambda>f. 0) ?v = streamArgs (\<lambda>f. 0) ?w"
    by (rule streamArgs_total_iff [of "\<lambda>f. 0" ?v ?w, THEN conjunct2, THEN conjunct2,
          rule_format, OF same])
  show ?thesis using 1 2 3 4 by (intro conjI)
qed

section \<open>The process launcher\<close>

text \<open>
  Claim C5, as the code has it. When the pipe creation fails, or the pipe is created and
  the start fails, the launcher returns that error, no readable stream, and starts no
  background task. After a failed pipe creation the stream it returns is nil. After a
  failed start it is not: the launcher returns the read end of the pipe that was
  created before the start, and the failed start has closed it, so the caller gets the
  error together with a stream handle that cannot be read. Only when both calls succeed
  is the stream readable and the background task started, with the argument vector it
  logs.
\<close>

theorem transcodePipe_launch_failure:
  "(StdoutPipe h \<lparr>Path = a0, Args = a0 # rest, Stderr = stderr\<rparr> = Inl e \<longrightarrow>
      transcodePipe h (a0 # rest) stderr =
        Inr \<lparr>reader = None, err = Some e, reaper = None\<rparr>)
   \<and> (StdoutPipe h \<lparr>Path = a0, Args = a0 # rest, Stderr = stderr\<rparr> = Inr p \<and>
       Start h \<lparr>Path = a0, Args = a0 # rest, Stderr = stderr\<rparr> = Some e \<longrightarrow>
      transcodePipe h (a0 # rest) stderr =
        Inr \<lparr>reader = Some \<lparr>handle = p, is_closed = True\<rparr>, err = Some e, reaper = None\<rparr>)
   \<and> (StdoutPipe h \<lparr>Path = a0, Args = a0 # rest, Stderr = stderr\<rparr> = Inr p \<and>
       Start h \<lparr>Path = a0, Args = a0 # rest, Stderr = stderr\<rparr> = None \<longrightarrow>
      transcodePipe h (a0 # rest) stderr =
        Inr \<lparr>reader = Some \<lparr>handle = p, is_closed = False\<rparr>, err = None,
             reaper = Some (a0 # rest)\<rparr>)
   \<and> (\<forall>res. transcodePipe h (a0 # rest) stderr = Inr res \<longrightarrow>
        (err res \<noteq> None \<longleftrightarrow>
           (\<exists>e. StdoutPipe h \<lparr>Path = a0, Args = a0 # rest, Stderr = stderr\<rparr> = Inl e) \<or>
           Start h \<lparr>Path = a0, Args = a0 # rest, Stderr = stderr\<rparr> \<noteq> None) \<and>
        (err res \<noteq> None \<longleftrightarrow> \<not> readable (reader res)) \<and>
        (err res \<noteq> None \<longleftrightarrow> reaper res = None))"
proof -
  let ?cmd = "\<lparr>Path = a0, Args = a0 # rest, Stderr = stderr\<rparr>"
  show ?thesis
  proof (cases "StdoutPipe h ?cmd")
    case (Inl e0)
    then show ?thesis
      by (simp add: transcodePipe_def readable_def)
  next
    case (Inr p0)
    show ?thesis
    proof (cases "Start h ?cmd")
      case None
      with Inr show ?thesis
        by (auto simp: transcodePipe_def cmd_Start_def readable_def)
    next
      case (Some e0)
      with Inr show ?thesis
        by (auto simp: transcodePipe_def cmd_Start_def readable_def)
    qed
  qed
qed

text \<open>
  Claim C5, as the specification words it, fails: for a binary that cannot be started
  the pipe is created first, and the caller receives, with the error, a stream handle
  that is not nil.
\<close>

theorem transcodePipe_start_failure_returns_pipe:
  "transcodePipe host_start_fails [''no-such-encoder'', ''-i'', ''a.mkv''] () =
     Inr \<lparr>reader = Some \<lparr>handle = 3, is_closed = True\<rparr>,
          err = Some (ExternalError ''executable file not found''),
          reaper = None\<rparr>"
  by (simp add: transcodePipe_def cmd_Start_def host_start_fails_def host_ok_def)

text \<open>The theorem on a host whose pipe creation fails, on one whose start fails, and on
  one that starts the command.\<close>

theorem transcodePipe_launch_failure_witness:
  "StdoutPipe host_pipe_fails \<lparr>Path = ''ffmpeg'', Args = [''ffmpeg''], Stderr = ()\<rparr>
     = Inl (ExternalError ''too many open files'')
   \<and> transcodePipe host_pipe_fails [''ffmpeg''] () =
       Inr \<lparr>reader = None, err = Some (ExternalError ''too many open files''), reaper = None\<rparr>
   \<and> Start host_start_fails \<lparr>Path = ''ffmpeg'', Args = [''ffmpeg''], Stderr = ()\<rparr>
       = Some (ExternalError ''executable file not found'')
   \<and> transcodePipe host_start_fails [''ffmpeg''] () =
       Inr \<lparr>reader = Some \<lparr>handle = 3, is_closed = True\<rparr>,
            err = Some (ExternalError ''executable file not found''), reaper = None\<rparr>
   \<and> \<not> readable (Some \<lparr>handle = 3::nat, is_closed = True\<rparr>)
   \<and> transcodePipe host_ok [''ffmpeg''] () =
       Inr \<lparr>reader = Some \<lparr>handle = 3, is_closed = False\<rparr>, err = None,
            reaper = Some [''ffmpeg'']\<rparr>
   \<and> readable (Some \<lparr>handle = 3::nat, is_closed = False\<rparr>)"
proof -
  let ?cmd = "\<lparr>Path = ''ffmpeg'', Args = [''ffmpeg''], Stderr = ()\<rparr>"
  let ?closed = "\<lparr>reader = Some \<lparr>handle = 3::nat, is_closed = True\<rparr>,
            err = Some (ExternalError ''executable file not found''), reaper = None\<rparr>"
  let ?open = "\<lparr>reader = Some \<lparr>handle = 3::nat, is_closed = False\<rparr>, err = None,
            reaper = Some [''ffmpeg'']\<rparr>"
  have p: "StdoutPipe host_pipe_fails ?cmd = Inl (ExternalError ''too many open files'')"
    by (simp add: host_pipe_fails_def host_ok_def)
  have 1: "transcodePipe host_pipe_fails [''ffmpeg''] () =
       Inr \<lparr>reader = None, err = Some (ExternalError ''too many open files''), reaper = None\<rparr>"
    by (rule transcodePipe_launch_failure [of host_pipe_fails "''ffmpeg''" "[]" "()",
        THEN conjunct1, rule_format, OF p])
  have q: "StdoutPipe host_start_fails ?cmd = Inr 3"
    by (simp add: host_start_fails_def host_ok_def)
  have s: "Start host_start_fails ?cmd = Some (ExternalError ''executable file not found'')"
    by (simp add: host_start_fails_def host_ok_def)
  have 2: "transcodePipe host_start_fails [''ffmpeg''] () = Inr ?closed"
    by (rule transcodePipe_launch_failure [of host_start_fails "''ffmpeg''" "[]" "()",
        THEN conjunct2, THEN conjunct1, rule_format, OF conjI [OF q s]])
  have e2: "err ?closed \<noteq> None" by simp
  have "\<not> readable (reader ?closed)"
    using transcodePipe_launch_failure [of host_start_fails "''ffmpeg''" "[]" "()",
        THEN conjunct2, THEN conjunct2, THEN conjunct2, rule_format, OF 2] e2
    by blast
  then have 3: "\<not> readable (Some \<lparr>handle = 3::nat, is_closed = True\<rparr>)" by simp
  have o: "StdoutPipe host_ok ?cmd = Inr 3" "Start host_ok ?cmd = None"
    by (simp_all add: host_ok_def)
  have 4: "transcodePipe host_ok [''ffmpeg''] () = Inr ?open"
    by (rule transcodePipe_launch_failure [of host_ok "''ffmpeg''" "[]" "()",
        THEN conjunct2, THEN conjunct2, THEN conjunct1, rule_format, OF conjI [OF o]])
  have e4: "\<not> err ?open \<noteq> None" by simp
  have "readable (reader ?open)"
    using transcodePipe_launch_failure [of host_ok "''ffmpeg''" "[]" "()",
        THEN conjunct2, THEN conjunct2, THEN conjunct2, rule_format, OF 4] e4
    by blast
  then have 5: "readable (Some \<lparr>handle = 3::nat, is_closed = False\<rparr>)" by simp
  show ?thesis using p 1 s 2 3 4 5 by (intro conjI)
qed

section \<open>The profile builders\<close>

text \<open>No decimal number and no stream directive is the token \<^verbatim>\<open>-t\<close>.\<close>

lemma digit_char_in_digits: "d < 10 \<Longrightarrow> digit_char d \<in> set ''0123456789''"
  unfolding digit_char_def by (rule nth_mem) simp

lemma set_digits: "set (digits n) \<subseteq> set ''0123456789''"
proof (induction n rule: digits.induct)
  case (1 n)
  show ?case
  proof (cases "n < 10")
    case True
    then have "digits n = [digit_char n]" by (subst digits.simps) simp
    with True digit_char_in_digits [of n] show ?thesis by simp
  next
    case False
    then have eq: "digits n = digits (n div 10) @ [digit_char (n mod 10)]"
      by (subst digits.simps) simp
    have "digit_char (n mod 10) \<in> set ''0123456789''"
      by (rule digit_char_in_digits) simp
    with 1 [OF False] show ?thesis unfolding eq by simp
  qed
qed

lemma Itoa_not_flag: "Itoa i \<noteq> ''-t''"
proof
  assume eq: "Itoa i = ''-t''"
  show False
  proof (cases "i < 0")
    case True
    with eq have "digits (nat (- i)) = ''t''" by (simp add: Itoa_def)
    then have "CHR ''t'' \<in> set (digits (nat (- i)))" by simp
    with set_digits [of "nat (- i)"] show False by auto
  next
    case False
    with eq have "digits (nat i) = ''-t''" by (simp add: Itoa_def)
    then have "CHR ''t'' \<in> set (digits (nat i))" by simp
    with set_digits [of "nat i"] show False by auto
  qed
qed

lemma streamArgs_no_t: "streamArgs indef s = Inr d \<Longrightarrow> ''-t'' \<notin> set d"
  by (cases "map_index s ''index''")
     (auto simp: streamArgs_def streamArgs_deferred_def streamArgs_switch_def split: if_splits)

lemma append_streamArgs_acc:
  "append_streamArgs indef acc ss = Inr r \<longleftrightarrow>
     (\<exists>d. append_streamArgs indef [] ss = Inr d \<and> r = acc @ d)"
proof (induction ss arbitrary: acc r)
  case Nil
  show ?case by auto
next
  case (Cons s ss)
  show ?case
  proof (cases "streamArgs indef s")
    case (Inl p)
    then show ?thesis by simp
  next
    case (Inr d0)
    have "append_streamArgs indef (acc @ d0) ss = Inr r \<longleftrightarrow>
            (\<exists>d. append_streamArgs indef [] ss = Inr d \<and> r = (acc @ d0) @ d)"
      by (rule Cons.IH)
    moreover have "\<And>x. append_streamArgs indef d0 ss = Inr x \<longleftrightarrow>
            (\<exists>d. append_streamArgs indef [] ss = Inr d \<and> x = d0 @ d)"
      by (rule Cons.IH)
    ultimately show ?thesis using Inr by auto
  qed
qed

lemma append_streamArgs_no_t:
  "append_streamArgs indef [] ss = Inr d \<Longrightarrow> ''-t'' \<notin> set d"
proof (induction ss arbitrary: d)
  case Nil
  then show ?case by simp
next
  case (Cons s ss)
  from Cons.prems obtain d0 where d0: "streamArgs indef s = Inr d0"
    and r: "append_streamArgs indef d0 ss = Inr d"
    by (cases "streamArgs indef s") simp_all
  from r obtain d1 where d1: "append_streamArgs indef [] ss = Inr d1" and d: "d = d0 @ d1"
    using append_streamArgs_acc [of indef d0 ss d] by auto
  from d0 have "''-t'' \<notin> set d0" by (rule streamArgs_no_t)
  moreover from d1 have "''-t'' \<notin> set d1" by (rule Cons.IH)
  ultimately show ?case using d by simp
qed

lemma Transcode_argv_shape:
  assumes "Transcode_argv h path start len streams = Inr argv"
  shows "\<exists>dirs. append_streamArgs (int_indef h) [] streams = Inr dirs \<and>
     argv = [''ffmpeg'', ''-threads'', Itoa (NumCPU h), ''-async'', ''1'']
            @ [''-ss'', FormatDurationSexagesimal h start]
            @ (if 0 \<le> sint len then [''-t'', FormatDurationSexagesimal h len] else [])
            @ [''-i'', path]
            @ dirs
            @ [''-f'', ''mpegts'', ''pipe:'']"
proof -
  let ?head = "[''ffmpeg'', ''-threads'', Itoa (NumCPU h), ''-async'', ''1'']
            @ [''-ss'', FormatDurationSexagesimal h start]
            @ (if 0 \<le> sint len then [''-t'', FormatDurationSexagesimal h len] else [])
            @ [''-i'', path]"
  from assms obtain r where r: "append_streamArgs (int_indef h) ?head streams = Inr r"
    and argv: "argv = r @ [''-f'', ''mpegts'', ''pipe:'']"
    by (auto simp: Transcode_argv_def Let_def split: sum.splits if_splits)
  from r obtain dirs where "append_streamArgs (int_indef h) [] streams = Inr dirs"
    and "r = ?head @ dirs"
    using append_streamArgs_acc [of "int_indef h" ?head streams r] by auto
  with argv show ?thesis by simp
qed

lemma Transcode_argv_t:
  assumes "Transcode_argv h path start len streams = Inr argv"
  shows "(argv ! 7 = ''-t'' \<longleftrightarrow> 0 \<le> sint len)"
    and "0 \<le> sint len \<Longrightarrow> argv ! 8 = FormatDurationSexagesimal h len"
    and "path \<noteq> ''-t'' \<Longrightarrow> FormatDurationSexagesimal h start \<noteq> ''-t'' \<Longrightarrow>
           (''-t'' \<in> set argv \<longleftrightarrow> 0 \<le> sint len)"
proof -
  from Transcode_argv_shape [OF assms] obtain dirs
    where dirs: "append_streamArgs (int_indef h) [] streams = Inr dirs"
      and argv: "argv = [''ffmpeg'', ''-threads'', Itoa (NumCPU h), ''-async'', ''1'']
            @ [''-ss'', FormatDurationSexagesimal h start]
            @ (if 0 \<le> sint len then [''-t'', FormatDurationSexagesimal h len] else [])
            @ [''-i'', path]
            @ dirs
            @ [''-f'', ''mpegts'', ''pipe:'']"
    by blast
  show "(argv ! 7 = ''-t'' \<longleftrightarrow> 0 \<le> sint len)"
    unfolding argv by simp
  show "0 \<le> sint len \<Longrightarrow> argv ! 8 = FormatDurationSexagesimal h len"
    unfolding argv by simp
  have "''-t'' \<notin> set dirs" using dirs by (rule append_streamArgs_no_t)
  then show "path \<noteq> ''-t'' \<Longrightarrow> FormatDurationSexagesimal h start \<noteq> ''-t'' \<Longrightarrow>
           (''-t'' \<in> set argv \<longleftrightarrow> 0 \<le> sint len)"
    unfolding argv using Itoa_not_flag [of "NumCPU h"] by auto
qed

lemma VP8Transcode_argv_shape:
  "VP8Transcode_argv h path start len =
     [''avconv'', ''-threads'', Itoa (NumCPU h), ''-async'', ''1'']
     @ [''-ss'', FormatDurationSexagesimal h start]
     @ (if 0 < sint len then [''-t'', FormatDurationSexagesimal h len] else [])
     @ [''-i'', path]
     @ [''-f'', ''webm'', ''pipe:'']"
  by (simp add: VP8Transcode_argv_def Let_def)

lemma ChromecastTranscode_argv_shape:
  "ChromecastTranscode_argv h path start len =
     [''ffmpeg'']
     @ [''-ss'', FormatDurationSexagesimal h start]
     @ [''-i'', path]
     @ [''-c:v'', ''libx264'', ''-preset'', ''ultrafast'', ''-profile:v'', ''high'',
        ''-level'', ''5.0'', ''-movflags'', ''+faststart+frag_keyframe+empty_moov'']
     @ (if 0 < sint len then [''-t'', FormatDurationSexagesimal h len] else [])
     @ [''-f'', ''mp4'', ''pipe:'']"
  by (simp add: ChromecastTranscode_argv_def Let_def)

lemma WebTranscode_argv_shape:
  "WebTranscode_argv h path start len =
     [''ffmpeg'']
     @ [''-ss'', FormatDurationSexagesimal h start]
     @ [''-i'', path]
     @ [''-pix_fmt'', ''yuv420p'', ''-c:v'', ''libx264'', ''-crf'', ''25'',
        ''-c:a'', ''mp3'', ''-ab'', ''128k'', ''-ar'', ''44100'',
        ''-preset'', ''ultrafast'',
        ''-movflags'', ''+faststart+frag_keyframe+empty_moov'']
     @ (if 0 < sint len then [''-t'', FormatDurationSexagesimal h len] else [])
     @ [''-f'', ''mp4'', ''pipe:'']"
  by (simp add: WebTranscode_argv_def Let_def)

lemma VP8Transcode_argv_t:
  shows "(VP8Transcode_argv h path start len ! 7 = ''-t'' \<longleftrightarrow> 0 < sint len)"
    and "path \<noteq> ''-t'' \<Longrightarrow> FormatDurationSexagesimal h start \<noteq> ''-t'' \<Longrightarrow>
           (''-t'' \<in> set (VP8Transcode_argv h path start len) \<longleftrightarrow> 0 < sint len)"
  unfolding VP8Transcode_argv_shape
  using Itoa_not_flag [of "NumCPU h"] by simp_all

lemma ChromecastTranscode_argv_t:
  shows "(ChromecastTranscode_argv h path start len ! 15 = ''-t'' \<longleftrightarrow> 0 < sint len)"
    and "path \<noteq> ''-t'' \<Longrightarrow> FormatDurationSexagesimal h start \<noteq> ''-t'' \<Longrightarrow>
           (''-t'' \<in> set (ChromecastTranscode_argv h path start len) \<longleftrightarrow> 0 < sint len)"
  unfolding ChromecastTranscode_argv_shape by simp_all

lemma WebTranscode_argv_t:
  shows "(WebTranscode_argv h path start len ! 21 = ''-t'' \<longleftrightarrow> 0 < sint len)"
    and "path \<noteq> ''-t'' \<Longrightarrow> FormatDurationSexagesimal h start \<noteq> ''-t'' \<Longrightarrow>
           (''-t'' \<in> set (WebTranscode_argv h path start len) \<longleftrightarrow> 0 < sint len)"
  unfolding WebTranscode_argv_shape by simp_all

lemma host_ok_fields:
  "NumCPU host_ok = 4"
  "FormatDurationSexagesimal host_ok d = Itoa (sint d)"
  "int_indef host_ok f = - (2 ^ 63)"
  by (simp_all add: host_ok_def)

lemma Itoa_small: "Itoa 0 = ''0''" "Itoa 1 = ''1''" "Itoa 4 = ''4''"
  by (simp_all add: Itoa_def digits.simps digit_char_def)

lemma demo_video_stream:
  "streamArgs indef [''index'' \<mapsto> IFloat64 (Finite 0), ''codec_type'' \<mapsto> IString ''video'']
     = Inr [''-target'', ''pal-dvd'', ''-map'', ''0:0'']"
  by (simp add: streamArgs_def streamArgs_switch_def streamArgs_deferred_def map_index_def
      float64_to_int_def truncate_real_def Itoa_small)

lemma Transcode_argv_demo:
  "Transcode_argv host_ok ''a.mkv'' 0 0
     [[''index'' \<mapsto> IFloat64 (Finite 0), ''codec_type'' \<mapsto> IString ''video'']]
   = Inr [''ffmpeg'', ''-threads'', ''4'', ''-async'', ''1'', ''-ss'', ''0'', ''-t'', ''0'',
          ''-i'', ''a.mkv'', ''-target'', ''pal-dvd'', ''-map'', ''0:0'',
          ''-f'', ''mpegts'', ''pipe:'']"
  by (simp add: Transcode_argv_def Let_def host_ok_fields Itoa_small demo_video_stream)

lemma ChromecastTranscode_argv_demo:
  "ChromecastTranscode_argv host_ok ''a.mkv'' 0 1 =
     [''ffmpeg'', ''-ss'', ''0'', ''-i'', ''a.mkv'', ''-c:v'', ''libx264'',
      ''-preset'', ''ultrafast'', ''-profile:v'', ''high'', ''-level'', ''5.0'',
      ''-movflags'', ''+faststart+frag_keyframe+empty_moov'', ''-t'', ''1'',
      ''-f'', ''mp4'', ''pipe:'']"
  by (simp add: ChromecastTranscode_argv_def Let_def host_ok_fields Itoa_small)

text \<open>
  Claim C2: \<^verbatim>\<open>Transcode\<close> puts \<^verbatim>\<open>-t\<close> and the formatted length into its vector exactly
  when length is at least 0, and \<^verbatim>\<open>VP8Transcode\<close>, \<^verbatim>\<open>ChromecastTranscode\<close> and
  \<^verbatim>\<open>WebTranscode\<close> exactly when length is greater than 0. This is stated twice: for the
  place in the vector where each builder puts the flag, and for the occurrence of the
  token \<^verbatim>\<open>-t\<close> anywhere in the vector, which needs that neither the path nor the
  formatted start is itself the string \<^verbatim>\<open>-t\<close>. With length 0 the vector of \<^verbatim>\<open>Transcode\<close>
  holds \<^verbatim>\<open>-t\<close> followed by the formatted zero duration, and the three others hold no
  \<^verbatim>\<open>-t\<close>.
\<close>

theorem t_flag_inclusion:
  "(\<forall>argv. Transcode_argv h path start len streams = Inr argv \<longrightarrow>
      (argv ! 7 = ''-t'' \<longleftrightarrow> 0 \<le> sint len) \<and>
      (0 \<le> sint len \<longrightarrow> argv ! 8 = FormatDurationSexagesimal h len) \<and>
      (path \<noteq> ''-t'' \<and> FormatDurationSexagesimal h start \<noteq> ''-t'' \<longrightarrow>
         (''-t'' \<in> set argv \<longleftrightarrow> 0 \<le> sint len)))
   \<and> (VP8Transcode_argv h path start len ! 7 = ''-t'' \<longleftrightarrow> 0 < sint len)
   \<and> (ChromecastTranscode_argv h path start len ! 15 = ''-t'' \<longleftrightarrow> 0 < sint len)
   \<and> (WebTranscode_argv h path start len ! 21 = ''-t'' \<longleftrightarrow> 0 < sint len)
   \<and> (path \<noteq> ''-t'' \<and> FormatDurationSexagesimal h start \<noteq> ''-t'' \<longrightarrow>
        (''-t'' \<in> set (VP8Transcode_argv h path start len) \<longleftrightarrow> 0 < sint len) \<and>
        (''-t'' \<in> set (ChromecastTranscode_argv h path start len) \<longleftrightarrow> 0 < sint len) \<and>
        (''-t'' \<in> set (WebTranscode_argv h path start len) \<longleftrightarrow> 0 < sint len))"
proof (intro conjI allI impI)
  fix argv assume a: "Transcode_argv h path start len streams = Inr argv"
  show "argv ! 7 = ''-t'' \<longleftrightarrow> 0 \<le> sint len" by (rule Transcode_argv_t(1) [OF a])
  show "argv ! 8 = FormatDurationSexagesimal h len" if "0 \<le> sint len"
    by (rule Transcode_argv_t(2) [OF a that])
  show "''-t'' \<in> set argv \<longleftrightarrow> 0 \<le> sint len"
    if "path \<noteq> ''-t'' \<and> FormatDurationSexagesimal h start \<noteq> ''-t''"
    using Transcode_argv_t(3) [OF a] that by blast
next
  show "VP8Transcode_argv h path start len ! 7 = ''-t'' \<longleftrightarrow> 0 < sint len"
    by (rule VP8Transcode_argv_t(1))
  show "ChromecastTranscode_argv h path start len ! 15 = ''-t'' \<longleftrightarrow> 0 < sint len"
    by (rule ChromecastTranscode_argv_t(1))
  show "WebTranscode_argv h path start len ! 21 = ''-t'' \<longleftrightarrow> 0 < sint len"
    by (rule WebTranscode_argv_t(1))
next
  assume p: "path \<noteq> ''-t'' \<and> FormatDurationSexagesimal h start \<noteq> ''-t''"
  show "''-t'' \<in> set (VP8Transcode_argv h path start len) \<longleftrightarrow> 0 < sint len"
    using VP8Transcode_argv_t(2) p by blast
  show "''-t'' \<in> set (ChromecastTranscode_argv h path start len) \<longleftrightarrow> 0 < sint len"
    using ChromecastTranscode_argv_t(2) p by blast
  show "''-t'' \<in> set (WebTranscode_argv h path start len) \<longleftrightarrow> 0 < sint len"
    using WebTranscode_argv_t(2) p by blast
qed

text \<open>The theorem at length 0 for the four builders, and at length 1 for \<^verbatim>\<open>WebTranscode\<close>.\<close>

theorem t_flag_inclusion_witness:
  "Transcode_argv host_ok ''a.mkv'' 0 0
     [[''index'' \<mapsto> IFloat64 (Finite 0), ''codec_type'' \<mapsto> IString ''video'']]
   = Inr [''ffmpeg'', ''-threads'', ''4'', ''-async'', ''1'', ''-ss'', ''0'', ''-t'', ''0'',
          ''-i'', ''a.mkv'', ''-target'', ''pal-dvd'', ''-map'', ''0:0'',
          ''-f'', ''mpegts'', ''pipe:'']
   \<and> ''a.mkv'' \<noteq> ''-t'' \<and> FormatDurationSexagesimal host_ok 0 \<noteq> ''-t''
   \<and> [''ffmpeg'', ''-threads'', ''4'', ''-async'', ''1'', ''-ss'', ''0'', ''-t'', ''0'',
       ''-i'', ''a.mkv'', ''-target'', ''pal-dvd'', ''-map'', ''0:0'',
       ''-f'', ''mpegts'', ''pipe:''] ! 8 = FormatDurationSexagesimal host_ok 0
   \<and> ''-t'' \<in> set [''ffmpeg'', ''-threads'', ''4'', ''-async'', ''1'', ''-ss'', ''0'', ''-t'', ''0'',
       ''-i'', ''a.mkv'', ''-target'', ''pal-dvd'', ''-map'', ''0:0'',
       ''-f'', ''mpegts'', ''pipe:'']
   \<and> ''-t'' \<notin> set (VP8Transcode_argv host_ok ''a.mkv'' 0 0)
   \<and> ''-t'' \<notin> set (ChromecastTranscode_argv host_ok ''a.mkv'' 0 0)
   \<and> ''-t'' \<notin> set (WebTranscode_argv host_ok ''a.mkv'' 0 0)
   \<and> ''-t'' \<in> set (WebTranscode_argv host_ok ''a.mkv'' 0 1)"
proof -
  let ?streams = "[[''index'' \<mapsto> IFloat64 (Finite 0), ''codec_type'' \<mapsto> IString ''video'']]"
  let ?argv = "[''ffmpeg'', ''-threads'', ''4'', ''-async'', ''1'', ''-ss'', ''0'', ''-t'', ''0'',
          ''-i'', ''a.mkv'', ''-target'', ''pal-dvd'', ''-map'', ''0:0'',
          ''-f'', ''mpegts'', ''pipe:'']"
  note zero = t_flag_inclusion [of host_ok "''a.mkv''" 0 0 ?streams]
  note one = t_flag_inclusion [of host_ok "''a.mkv''" 0 1 ?streams]
  have a: "Transcode_argv host_ok ''a.mkv'' 0 0 ?streams = Inr ?argv"
    by (rule Transcode_argv_demo)
  have p: "''a.mkv'' \<noteq> ''-t''" by simp
  have f: "FormatDurationSexagesimal host_ok 0 \<noteq> ''-t''"
    by (simp add: host_ok_fields Itoa_small)
  have z: "(0::int) \<le> sint (0::64 word)" "\<not> (0::int) < sint (0::64 word)" by simp_all
  have o: "(0::int) < sint (1::64 word)" by simp
  have 8: "?argv ! 8 = FormatDurationSexagesimal host_ok 0"
    using zero [THEN conjunct1, rule_format, OF a] z(1) by blast
  have mem: "''-t'' \<in> set ?argv"
    using zero [THEN conjunct1, rule_format, OF a] p f z(1) by blast
  have rest: "(''-t'' \<in> set (VP8Transcode_argv host_ok ''a.mkv'' 0 0) \<longleftrightarrow> (0::int) < sint (0::64 word)) \<and>
        (''-t'' \<in> set (ChromecastTranscode_argv host_ok ''a.mkv'' 0 0) \<longleftrightarrow> (0::int) < sint (0::64 word)) \<and>
        (''-t'' \<in> set (WebTranscode_argv host_ok ''a.mkv'' 0 0) \<longleftrightarrow> (0::int) < sint (0::64 word))"
    using zero p f by blast
  have b: "''-t'' \<notin> set (VP8Transcode_argv host_ok ''a.mkv'' 0 0)"
    using rest z(2) by blast
  have c: "''-t'' \<notin> set (ChromecastTranscode_argv host_ok ''a.mkv'' 0 0)"
    using rest z(2) by blast
  have d: "''-t'' \<notin> set (WebTranscode_argv host_ok ''a.mkv'' 0 0)"
    using rest z(2) by blast
  have e: "''-t'' \<in> set (WebTranscode_argv host_ok ''a.mkv'' 0 1)"
    using one p f o by blast
  show ?thesis using a p f 8 mem b c d e by (intro conjI)
qed

text \<open>
  Claim C7, as the code has it. \<^verbatim>\<open>Transcode\<close> and \<^verbatim>\<open>VP8Transcode\<close> build the encoder
  binary, the thread and sync flags, \<^verbatim>\<open>-ss\<close> with the start, \<^verbatim>\<open>-t\<close> with the length when
  it is included, \<^verbatim>\<open>-i\<close> with the path, the stream directives (\<^verbatim>\<open>Transcode\<close> only), the
  output format and the pipe target, in this order. \<^verbatim>\<open>ChromecastTranscode\<close> and
  \<^verbatim>\<open>WebTranscode\<close> have no flag before \<^verbatim>\<open>-ss\<close>, and they put their encoding flags and then
  \<^verbatim>\<open>-t\<close> after \<^verbatim>\<open>-i\<close> and the path, before the output format and the pipe target.
\<close>

theorem profile_shapes:
  "(\<forall>argv. Transcode_argv h path start len streams = Inr argv \<longrightarrow>
      (\<exists>dirs. append_streamArgs (int_indef h) [] streams = Inr dirs \<and>
         argv = [''ffmpeg'', ''-threads'', Itoa (NumCPU h), ''-async'', ''1'']
                @ [''-ss'', FormatDurationSexagesimal h start]
                @ (if 0 \<le> sint len then [''-t'', FormatDurationSexagesimal h len] else [])
                @ [''-i'', path]
                @ dirs
                @ [''-f'', ''mpegts'', ''pipe:'']))
   \<and> VP8Transcode_argv h path start len =
       [''avconv'', ''-threads'', Itoa (NumCPU h), ''-async'', ''1'']
       @ [''-ss'', FormatDurationSexagesimal h start]
       @ (if 0 < sint len then [''-t'', FormatDurationSexagesimal h len] else [])
       @ [''-i'', path]
       @ [''-f'', ''webm'', ''pipe:'']
   \<and> ChromecastTranscode_argv h path start len =
       [''ffmpeg'']
       @ [''-ss'', FormatDurationSexagesimal h start]
       @ [''-i'', path]
       @ [''-c:v'', ''libx264'', ''-preset'', ''ultrafast'', ''-profile:v'', ''high'',
          ''-level'', ''5.0'', ''-movflags'', ''+faststart+frag_keyframe+empty_moov'']
       @ (if 0 < sint len then [''-t'', FormatDurationSexagesimal h len] else [])
       @ [''-f'', ''mp4'', ''pipe:'']
   \<and> WebTranscode_argv h path start len =
       [''ffmpeg'']
       @ [''-ss'', FormatDurationSexagesimal h start]
       @ [''-i'', path]
       @ [''-pix_fmt'', ''yuv420p'', ''-c:v'', ''libx264'', ''-crf'', ''25'',
          ''-c:a'', ''mp3'', ''-ab'', ''128k'', ''-ar'', ''44100'',
          ''-preset'', ''ultrafast'',
          ''-movflags'', ''+faststart+frag_keyframe+empty_moov'']
       @ (if 0 < sint len then [''-t'', FormatDurationSexagesimal h len] else [])
       @ [''-f'', ''mp4'', ''pipe:'']
   \<and> (0 < sint len \<longrightarrow>
        VP8Transcode_argv h path start len ! 7 = ''-t'' \<and>
        VP8Transcode_argv h path start len ! 9 = ''-i'' \<and>
        ChromecastTranscode_argv h path start len ! 3 = ''-i'' \<and>
        ChromecastTranscode_argv h path start len ! 15 = ''-t'' \<and>
        WebTranscode_argv h path start len ! 3 = ''-i'' \<and>
        WebTranscode_argv h path start len ! 21 = ''-t'')"
proof (intro conjI allI impI)
  fix argv assume "Transcode_argv h path start len streams = Inr argv"
  then show "\<exists>dirs. append_streamArgs (int_indef h) [] streams = Inr dirs \<and>
         argv = [''ffmpeg'', ''-threads'', Itoa (NumCPU h), ''-async'', ''1'']
                @ [''-ss'', FormatDurationSexagesimal h start]
                @ (if 0 \<le> sint len then [''-t'', FormatDurationSexagesimal h len] else [])
                @ [''-i'', path]
                @ dirs
                @ [''-f'', ''mpegts'', ''pipe:'']"
    by (rule Transcode_argv_shape)
next
  show "VP8Transcode_argv h path start len =
       [''avconv'', ''-threads'', Itoa (NumCPU h), ''-async'', ''1'']
       @ [''-ss'', FormatDurationSexagesimal h start]
       @ (if 0 < sint len then [''-t'', FormatDurationSexagesimal h len] else [])
       @ [''-i'', path]
       @ [''-f'', ''webm'', ''pipe:'']"
    by (rule VP8Transcode_argv_shape)
  show "ChromecastTranscode_argv h path start len =
       [''ffmpeg'']
       @ [''-ss'', FormatDurationSexagesimal h start]
       @ [''-i'', path]
       @ [''-c:v'', ''libx264'', ''-preset'', ''ultrafast'', ''-profile:v'', ''high'',
          ''-level'', ''5.0'', ''-movflags'', ''+faststart+frag_keyframe+empty_moov'']
       @ (if 0 < sint len then [''-t'', FormatDurationSexagesimal h len] else [])
       @ [''-f'', ''mp4'', ''pipe:'']"
    by (rule ChromecastTranscode_argv_shape)
  show "WebTranscode_argv h path start len =
       [''ffmpeg'']
       @ [''-ss'', FormatDurationSexagesimal h start]
       @ [''-i'', path]
       @ [''-pix_fmt'', ''yuv420p'', ''-c:v'', ''libx264'', ''-crf'', ''25'',
          ''-c:a'', ''mp3'', ''-ab'', ''128k'', ''-ar'', ''44100'',
          ''-preset'', ''ultrafast'',
          ''-movflags'', ''+faststart+frag_keyframe+empty_moov'']
       @ (if 0 < sint len then [''-t'', FormatDurationSexagesimal h len] else [])
       @ [''-f'', ''mp4'', ''pipe:'']"
    by (rule WebTranscode_argv_shape)
next
  assume l: "0 < sint len"
  show "VP8Transcode_argv h path start len ! 7 = ''-t''"
    unfolding VP8Transcode_argv_shape using l by simp
  show "VP8Transcode_argv h path start len ! 9 = ''-i''"
    unfolding VP8Transcode_argv_shape using l by simp
  show "ChromecastTranscode_argv h path start len ! 3 = ''-i''"
    unfolding ChromecastTranscode_argv_shape by simp
  show "ChromecastTranscode_argv h path start len ! 15 = ''-t''"
    unfolding ChromecastTranscode_argv_shape using l by simp
  show "WebTranscode_argv h path start len ! 3 = ''-i''"
    unfolding WebTranscode_argv_shape by simp
  show "WebTranscode_argv h path start len ! 21 = ''-t''"
    unfolding WebTranscode_argv_shape using l by simp
qed

text \<open>
  Claim C7, as the specification words it, fails: in the vector of
  \<^verbatim>\<open>ChromecastTranscode\<close> for a length of one nanosecond, \<^verbatim>\<open>-i\<close> stands at position 3 and
  \<^verbatim>\<open>-t\<close> at position 15, and \<^verbatim>\<open>-ss\<close> follows the binary at once.
\<close>

theorem ChromecastTranscode_t_after_i:
  "''-t'' \<in> set (ChromecastTranscode_argv host_ok ''a.mkv'' 0 1)
   \<and> index_of ''-i'' (ChromecastTranscode_argv host_ok ''a.mkv'' 0 1) = 3
   \<and> index_of ''-t'' (ChromecastTranscode_argv host_ok ''a.mkv'' 0 1) = 15
   \<and> hd (tl (ChromecastTranscode_argv host_ok ''a.mkv'' 0 1)) = ''-ss''"
  unfolding ChromecastTranscode_argv_demo by simp

text \<open>The theorem at length 1 for the positions, and at length 0 for \<^verbatim>\<open>Transcode\<close> on one
  video stream.\<close>

theorem profile_shapes_witness:
  "(0::int) < sint (1::64 word)
   \<and> ChromecastTranscode_argv host_ok ''a.mkv'' 0 1 ! 3 = ''-i''
   \<and> ChromecastTranscode_argv host_ok ''a.mkv'' 0 1 ! 15 = ''-t''
   \<and> VP8Transcode_argv host_ok ''a.mkv'' 0 1 ! 7 = ''-t''
   \<and> VP8Transcode_argv host_ok ''a.mkv'' 0 1 ! 9 = ''-i''
   \<and> Transcode_argv host_ok ''a.mkv'' 0 0
        [[''index'' \<mapsto> IFloat64 (Finite 0), ''codec_type'' \<mapsto> IString ''video'']]
      = Inr [''ffmpeg'', ''-threads'', ''4'', ''-async'', ''1'', ''-ss'', ''0'', ''-t'', ''0'',
          ''-i'', ''a.mkv'', ''-target'', ''pal-dvd'', ''-map'', ''0:0'',
          ''-f'', ''mpegts'', ''pipe:'']
   \<and> (\<exists>dirs. append_streamArgs (int_indef host_ok) []
                [[''index'' \<mapsto> IFloat64 (Finite 0), ''codec_type'' \<mapsto> IString ''video'']] = Inr dirs)"
proof -
  let ?streams = "[[''index'' \<mapsto> IFloat64 (Finite 0), ''codec_type'' \<mapsto> IString ''video'']]"
  note one = profile_shapes [of host_ok "''a.mkv''" 0 1 ?streams]
  note zero = profile_shapes [of host_ok "''a.mkv''" 0 0 ?streams]
  have o: "(0::int) < sint (1::64 word)" by simp
  have pos: "VP8Transcode_argv host_ok ''a.mkv'' 0 1 ! 7 = ''-t'' \<and>
        VP8Transcode_argv host_ok ''a.mkv'' 0 1 ! 9 = ''-i'' \<and>
        ChromecastTranscode_argv host_ok ''a.mkv'' 0 1 ! 3 = ''-i'' \<and>
        ChromecastTranscode_argv host_ok ''a.mkv'' 0 1 ! 15 = ''-t'' \<and>
        WebTranscode_argv host_ok ''a.mkv'' 0 1 ! 3 = ''-i'' \<and>
        WebTranscode_argv host_ok ''a.mkv'' 0 1 ! 21 = ''-t''"
    using one o by blast
  have a: "Transcode_argv host_ok ''a.mkv'' 0 0 ?streams
      = Inr [''ffmpeg'', ''-threads'', ''4'', ''-async'', ''1'', ''-ss'', ''0'', ''-t'', ''0'',
          ''-i'', ''a.mkv'', ''-target'', ''pal-dvd'', ''-map'', ''0:0'',
          ''-f'', ''mpegts'', ''pipe:'']"
    by (rule Transcode_argv_demo)
  have d: "\<exists>dirs. append_streamArgs (int_indef host_ok) [] ?streams = Inr dirs"
    using zero [THEN conjunct1, rule_format, OF a] by blast
  show ?thesis using o pos a d by (intro conjI) blast+
qed

end
